theory Spec2Isabelle
  imports Complex_Main "HOL-Library.Multiset"
begin

section \<open>Data model\<close>

text \<open>
  The three scripts work on a pandas DataFrame read from a CSV file. A DataFrame is an
  ordered list of named columns; every column has a dtype. Three dtypes occur: numeric
  (int64/float64/bool, a missing cell is NaN), object (text, a missing cell is NaN) and
  datetime64 (nanoseconds since the epoch, a missing cell is NaT). A missing cell is
  \<open>None\<close>. Floating-point numbers are idealised as reals; a timestamp is the integer
  number of nanoseconds since the epoch. \<open>read_csv\<close> makes column names unique.
\<close>

datatype column =
    NumericCol "real option list"
  | ObjectCol "string option list"
  | DatetimeCol "int option list"

type_synonym dataframe = "(string \<times> column) list"

text \<open>
  How a run can end other than by completing: \<open>fail(msg)\<close> of the forecast script
  (message on stderr, \<open>sys.exit(1)\<close>), \<open>raise SystemExit(msg)\<close> of the plotting scripts
  (message on stderr, exit status 1), and exceptions nobody catches (traceback, exit
  status 1).
\<close>

datatype error =
    Fail string
  | SystemExit string
  | IndexError
  | KeyError string
  | ValueError string
  | InvalidIndexError
  | Uncaught string

definition columns :: "dataframe \<Rightarrow> string list" where
  "columns df = map fst df"

definition is_numeric_dtype :: "column \<Rightarrow> bool" where
  "is_numeric_dtype col = (case col of NumericCol _ \<Rightarrow> True | _ \<Rightarrow> False)"


definition col_is_numeric :: "dataframe \<Rightarrow> string \<Rightarrow> bool" where
  "col_is_numeric df c = (case map_of df c of Some col \<Rightarrow> is_numeric_dtype col | None \<Rightarrow> False)"

text \<open>\<open>str.lower()\<close> on ASCII text: the letters A to Z are mapped, every other byte is kept.\<close>

definition lower_char :: "char \<Rightarrow> char" where
  "lower_char c =
     (case map_of (zip ''ABCDEFGHIJKLMNOPQRSTUVWXYZ'' ''abcdefghijklmnopqrstuvwxyz'') c of
        None \<Rightarrow> c | Some d \<Rightarrow> d)"

definition lower :: "string \<Rightarrow> string" where
  "lower s = map lower_char s"

section \<open>Column resolvers of the plotting scripts\<close>

text \<open>
  \<open>if forced and forced in df.columns\<close>: a forced name counts when it is given, is not the
  empty string and names a column.
\<close>

definition forced_valid :: "dataframe \<Rightarrow> string option \<Rightarrow> bool" where
  "forced_valid df forced =
     (case forced of None \<Rightarrow> False | Some f \<Rightarrow> f \<noteq> [] \<and> f \<in> set (columns df))"

text \<open>
  \<open>{c.lower(): c for c in df.columns}\<close>: a dictionary built left to right, so of several
  columns with the same lowercase name the last one stays.
\<close>

definition lower_map :: "string list \<Rightarrow> (string \<rightharpoonup> string)" where
  "lower_map cols = map_of (rev (map (\<lambda>c. (lower c, c)) cols))"

definition time_candidates :: "string list" where
  "time_candidates = [''time'', ''timestamp'', ''date'', ''datetime'']"

fun first_candidate :: "(string \<rightharpoonup> string) \<Rightarrow> string list \<Rightarrow> string option" where
  "first_candidate m [] = None"
| "first_candidate m (cand # cands) =
     (case m cand of Some c \<Rightarrow> Some c | None \<Rightarrow> first_candidate m cands)"

definition detect_time_auto :: "dataframe \<Rightarrow> error + string" where
  "detect_time_auto df =
     (case first_candidate (lower_map (columns df)) time_candidates of
        Some c \<Rightarrow> Inr c
      | None \<Rightarrow> (case columns df of [] \<Rightarrow> Inl IndexError | c # _ \<Rightarrow> Inr c))"

text \<open>\<open>detect_time_col\<close>, the same function in both plotting scripts.\<close>

definition detect_time_col :: "dataframe \<Rightarrow> string option \<Rightarrow> error + string" where
  "detect_time_col df forced =
     (case forced of
        None \<Rightarrow> detect_time_auto df
      | Some f \<Rightarrow> if f \<noteq> [] \<and> f \<in> set (columns df) then Inr f else detect_time_auto df)"

definition numeric_cols :: "dataframe \<Rightarrow> string \<Rightarrow> string list" where
  "numeric_cols df time_col =
     filter (\<lambda>c. c \<noteq> time_col \<and> col_is_numeric df c) (columns df)"

definition preferred_metrics :: "string list" where
  "preferred_metrics = [''ds389.cn.opscompleted'', ''ds389.cn.opsCompleted'', ''opscompleted'']"

definition pick_metric_auto :: "dataframe \<Rightarrow> string \<Rightarrow> error + string" where
  "pick_metric_auto df time_col =
     (case numeric_cols df time_col of
        [] \<Rightarrow> Inl (SystemExit ''No numeric metric columns found. Pass --metric explicitly.'')
      | c # cs \<Rightarrow>
          (case find (\<lambda>preferred. preferred \<in> set (c # cs)) preferred_metrics of
             Some preferred \<Rightarrow> Inr preferred
           | None \<Rightarrow> Inr c))"

text \<open>\<open>pick_metric_col\<close> of plot_base_pcp_metric.py.\<close>

definition pick_metric_col :: "dataframe \<Rightarrow> string \<Rightarrow> string option \<Rightarrow> error + string" where
  "pick_metric_col df time_col metric =
     (case metric of
        None \<Rightarrow> pick_metric_auto df time_col
      | Some m \<Rightarrow> if m \<noteq> [] \<and> m \<in> set (columns df) then Inr m else pick_metric_auto df time_col)"

definition detect_value_auto :: "dataframe \<Rightarrow> string \<Rightarrow> error + string" where
  "detect_value_auto df time_col =
     (case find (\<lambda>c. c \<noteq> time_col \<and> col_is_numeric df c) (columns df) of
        Some c \<Rightarrow> Inr c
      | None \<Rightarrow> Inl (SystemExit ''No numeric value column found; pass --value-col.''))"

text \<open>\<open>detect_value_col\<close> of plot_split_by_observed_predicted.py.\<close>

definition detect_value_col :: "dataframe \<Rightarrow> string \<Rightarrow> string option \<Rightarrow> error + string" where
  "detect_value_col df time_col forced =
     (case forced of
        None \<Rightarrow> detect_value_auto df time_col
      | Some f \<Rightarrow> if f \<noteq> [] \<and> f \<in> set (columns df) then Inr f else detect_value_auto df time_col)"

section \<open>The pandas functions the scripts call\<close>

text \<open>
  The spec leaves the libraries unspecified. Library functions whose result the claims do
  not depend on are parameters of the model, collected in one record: the text parsers
  (\<open>pd.to_datetime\<close>, \<open>pd.to_numeric\<close> on text, \<open>to_offset\<close> on an interval string, which
  gives the step of a fixed-frequency alias in nanoseconds), the conversion of a float
  number of hours to a Timedelta in nanoseconds, the aggregating resampler and the rolling
  mean of the plotting scripts, the index of \<open>pd.concat(..., axis=1)\<close>, \<open>str()\<close> of
  numbers and timestamps, and \<open>Path(...).stem\<close>. A parameter of option type is \<open>None\<close>
  where the library raises. All other library functions are defined below from their
  documented behaviour.
\<close>

type_synonym plot_series = "column \<times> column"

record pandas =
  to_datetime_coerce :: "column \<Rightarrow> int option list"
  str_to_numeric :: "string \<Rightarrow> real option"
  to_offset :: "string \<Rightarrow> int option"
  to_timedelta_hours :: "real \<Rightarrow> int"
  to_datetime :: "column \<Rightarrow> column option"
  resample_agg :: "string \<Rightarrow> string \<Rightarrow> plot_series \<Rightarrow> plot_series option"
  rolling_mean :: "int \<Rightarrow> plot_series \<Rightarrow> plot_series"
  concat_index :: "plot_series \<Rightarrow> plot_series \<Rightarrow> column option"
  num_to_str :: "real \<Rightarrow> string"
  ts_to_str :: "int \<Rightarrow> string"
  path_stem :: "string \<Rightarrow> string"

text \<open>The cells of a column, whatever its dtype.\<close>

datatype cell = NumCell real | StrCell string | TsCell int | NaN

definition cells :: "column \<Rightarrow> cell list" where
  "cells col =
     (case col of
        NumericCol xs \<Rightarrow> map (\<lambda>x. case x of None \<Rightarrow> NaN | Some r \<Rightarrow> NumCell r) xs
      | ObjectCol xs \<Rightarrow> map (\<lambda>x. case x of None \<Rightarrow> NaN | Some s \<Rightarrow> StrCell s) xs
      | DatetimeCol xs \<Rightarrow> map (\<lambda>x. case x of None \<Rightarrow> NaN | Some t \<Rightarrow> TsCell t) xs)"

section \<open>The trend and forecast script (ml_trend.py)\<close>

subsection \<open>Parse and clean\<close>

text \<open>
  A row of the table is its parsed \<open>Time\<close> cell (\<open>None\<close> is NaT) with the rest of the row.
  \<open>df.dropna(subset=["Time"])\<close> drops the rows whose time is NaT.
\<close>

definition dropna_time :: "(int option \<times> 'a) list \<Rightarrow> (int \<times> 'a) list" where
  "dropna_time rows = List.map_filter (\<lambda>(t, v). map_option (\<lambda>t'. (t', v)) t) rows"

text \<open>
  \<open>df.sort_values("Time")\<close>. Rows with equal times are kept in table order, as numpy's
  default sort does on the short inputs where it falls back to insertion sort; on long
  inputs the library leaves the order among equal keys open.
\<close>

definition sort_values_time :: "(int \<times> 'a) list \<Rightarrow> (int \<times> 'a) list" where
  "sort_values_time rows = sort_key fst rows"

text \<open>
  \<open>drop_duplicates("Time")\<close> with its default \<open>keep='first'\<close>: going down the table, a row
  is dropped when its time has been seen before.
\<close>

fun drop_duplicates_from :: "int list \<Rightarrow> (int \<times> 'a) list \<Rightarrow> (int \<times> 'a) list" where
  "drop_duplicates_from seen [] = []"
| "drop_duplicates_from seen (r # rows) =
     (if fst r \<in> set seen then drop_duplicates_from seen rows
      else r # drop_duplicates_from (fst r # seen) rows)"

definition drop_duplicates_time :: "(int \<times> 'a) list \<Rightarrow> (int \<times> 'a) list" where
  "drop_duplicates_time rows = drop_duplicates_from [] rows"

text \<open>Lines 35 and 36 of ml_trend.py: \<open>dropna\<close>, \<open>sort_values\<close>, \<open>drop_duplicates\<close>.\<close>

definition clean :: "(int option \<times> 'a) list \<Rightarrow> (int \<times> 'a) list" where
  "clean rows = drop_duplicates_time (sort_values_time (dropna_time rows))"

text \<open>\<open>pd.to_numeric(df[metric], errors="coerce").dropna()\<close>, cell by cell.\<close>

definition to_numeric_cell :: "pandas \<Rightarrow> cell \<Rightarrow> real option" where
  "to_numeric_cell P c =
     (case c of NumCell r \<Rightarrow> Some r | StrCell s \<Rightarrow> str_to_numeric P s
      | TsCell t \<Rightarrow> Some (real_of_int t) | NaN \<Rightarrow> None)"

text \<open>
  A series is a list of (timestamp, value) pairs in index order; a value \<open>None\<close> is NaN.
\<close>

type_synonym series = "(int \<times> real option) list"

definition numeric_dropna :: "pandas \<Rightarrow> (int \<times> cell) list \<Rightarrow> series" where
  "numeric_dropna P rows =
     List.map_filter (\<lambda>(t, c). map_option (\<lambda>x. (t, Some x)) (to_numeric_cell P c)) rows"

subsection \<open>Resample and forward-fill\<close>

text \<open>
  \<open>s.resample(interval).last().ffill()\<close> for a fixed step of \<open>step\<close> nanoseconds, on a
  series whose index ascends (as it does at the call). pandas anchors the bins at
  midnight of the first sample's day (\<open>origin='start_day'\<close>), closes them on the left and
  labels them by their left edge. The bins run from the one that holds the first sample to
  the one that holds the last. \<open>last()\<close> takes the last value of a bin that is not NaN,
  and NaN for a bin without one; \<open>ffill()\<close> replaces a NaN by the value before it.
\<close>

definition day_ns :: int where
  "day_ns = 86400000000000"

definition normalize_ts :: "int \<Rightarrow> int" where
  "normalize_ts t = t - t mod day_ns"

definition bin_floor :: "int \<Rightarrow> int \<Rightarrow> int \<Rightarrow> int" where
  "bin_floor origin step t = t - (t - origin) mod step"

definition last_valid :: "real option list \<Rightarrow> real option" where
  "last_valid vs = (case filter (\<lambda>v. v \<noteq> None) vs of [] \<Rightarrow> None | w # ws \<Rightarrow> last (w # ws))"

definition bin_values :: "int \<Rightarrow> int \<Rightarrow> series \<Rightarrow> real option list" where
  "bin_values b step s = map snd (filter (\<lambda>(t, v). b \<le> t \<and> t < b + step) s)"

definition resample_last :: "int \<Rightarrow> series \<Rightarrow> series" where
  "resample_last step s =
     (case s of
        [] \<Rightarrow> []
      | p # ps \<Rightarrow>
          (let origin = normalize_ts (fst p);
               first = bin_floor origin step (fst p);
               lst = bin_floor origin step (fst (last (p # ps)));
               n = nat ((lst - first) div step) + 1
           in map (\<lambda>i. (first + int i * step, last_valid (bin_values (first + int i * step) step s)))
                [0..<n]))"

fun ffill_from :: "real option \<Rightarrow> series \<Rightarrow> series" where
  "ffill_from prev [] = []"
| "ffill_from prev ((t, v) # rest) =
     (case v of
        None \<Rightarrow> (t, prev) # ffill_from prev rest
      | Some x \<Rightarrow> (t, Some x) # ffill_from (Some x) rest)"

definition ffill :: "series \<Rightarrow> series" where
  "ffill s = ffill_from None s"

definition resample_last_ffill :: "int \<Rightarrow> series \<Rightarrow> series" where
  "resample_last_ffill step s = ffill (resample_last step s)"

subsection \<open>Regression, forecast and ETA\<close>

text \<open>\<open>(index - t0).total_seconds() / 3600.0\<close>.\<close>

definition total_seconds :: "int \<Rightarrow> real" where
  "total_seconds td = real_of_int td / 1000000000"

definition elapsed_hours :: "int \<Rightarrow> int \<Rightarrow> real" where
  "elapsed_hours t0 t = total_seconds (t - t0) / 3600"

text \<open>
  \<open>LinearRegression().fit(X, y)\<close> with one feature: ordinary least squares on the centred
  data, the intercept recovered from the means. The numerics of the solver are not
  modelled; reals stand for floats.
\<close>

definition fit :: "real list \<Rightarrow> real list \<Rightarrow> real \<times> real" where
  "fit X y =
     (let n = real (length X);
          x_mean = sum_list X / n;
          y_mean = sum_list y / n;
          sxy = sum_list (map (\<lambda>(x, v). (x - x_mean) * (v - y_mean)) (zip X y));
          sxx = sum_list (map (\<lambda>x. (x - x_mean) * (x - x_mean)) X);
          coef = sxy / sxx
      in (coef, y_mean - coef * x_mean))"

definition predict :: "real \<Rightarrow> real \<Rightarrow> real \<Rightarrow> real" where
  "predict slope intercept x = slope * x + intercept"

text \<open>\<open>int(x)\<close> on a float truncates towards zero.\<close>

definition py_int :: "real \<Rightarrow> int" where
  "py_int x = (if 0 \<le> x then \<lfloor>x\<rfloor> else \<lceil>x\<rceil>)"

text \<open>Line 67: \<open>n_steps = max(int((args.horizon_hours * 3600) / step_seconds), 1)\<close>.\<close>

definition n_steps :: "int \<Rightarrow> real \<Rightarrow> int" where
  "n_steps horizon_hours step_seconds =
     max (py_int ((real_of_int horizon_hours * 3600) / step_seconds)) 1"

definition date_range :: "int \<Rightarrow> int \<Rightarrow> int \<Rightarrow> int list" where
  "date_range start periods freq = map (\<lambda>k. start + int k * freq) [0..<nat periods]"

text \<open>Lines 84 to 94: the three ETA messages.\<close>

datatype eta_msg = Unreachable | AlreadyCrossed int | Projected int

definition eta_report :: "pandas \<Rightarrow> real \<Rightarrow> real \<Rightarrow> int \<Rightarrow> int \<Rightarrow> real \<Rightarrow> eta_msg" where
  "eta_report P slope intercept t0 t_last threshold =
     (if slope = 0 then Unreachable
      else
        (let x_eta_hours = (threshold - intercept) / slope;
             eta_ts = t0 + to_timedelta_hours P x_eta_hours
         in if eta_ts \<le> t_last then AlreadyCrossed eta_ts else Projected eta_ts))"

text \<open>
  \<open>s.to_numpy(dtype=float)\<close> handed to the regression, which raises on a NaN.
\<close>

definition values_of :: "series \<Rightarrow> real list option" where
  "values_of s = (if list_all (\<lambda>(t, v). v \<noteq> None) s then Some (List.map_filter snd s) else None)"

subsection \<open>main\<close>

record trend_args =
  csv_path :: string
  metric_name :: string
  interval :: string
  horizon_hours :: int
  threshold_arg :: "real option"
  out_forecast :: string

text \<open>
  What a completed run produces: the rows of the forecast CSV (time, value, type) and the
  printed slope, intercept and ETA message.
\<close>

record forecast =
  out_rows :: "(int \<times> real \<times> string) list"
  out_slope :: real
  out_intercept :: real
  out_eta :: "eta_msg option"

text \<open>
  Lines 53 to 94, on the resampled series \<open>s\<close> and its values \<open>y\<close>. The script gets
  here with at least three points, so \<open>s.index[0]\<close> and \<open>s.index[-1]\<close> exist.
\<close>

definition forecast_of :: "pandas \<Rightarrow> trend_args \<Rightarrow> int \<Rightarrow> series \<Rightarrow> real list \<Rightarrow> forecast" where
  "forecast_of P args step s y =
     (let t0 = fst (hd s);
          X = map (\<lambda>(t, v). elapsed_hours t0 t) s;
          (slope, intercept) = fit X y;
          steps = n_steps (horizon_hours args) (total_seconds step);
          future_idx = date_range (fst (last s) + step) steps step;
          y_pred = map (\<lambda>t. predict slope intercept (elapsed_hours t0 t)) future_idx;
          out_hist = map (\<lambda>(t, v). (t, v, ''observed'')) (zip (map fst s) y);
          out_pred = map (\<lambda>(t, v). (t, v, ''predicted'')) (zip future_idx y_pred)
      in \<lparr> out_rows = out_hist @ out_pred, out_slope = slope, out_intercept = intercept,
           out_eta = map_option (eta_report P slope intercept t0 (fst (last s))) (threshold_arg args) \<rparr>)"

text \<open>
  Lines 23 to 76. \<open>csv_read\<close> is the outcome of \<open>pd.read_csv\<close>: the table, or the text
  of the exception. After \<open>set_index("Time")\<close> the table has no column \<open>Time\<close> any more,
  so asking for it as the metric is a KeyError. The exception text that ends the message
  for an invalid interval is left out; a step that is not positive is rejected like an
  alias that does not parse.
\<close>

definition compute :: "pandas \<Rightarrow> string + dataframe \<Rightarrow> trend_args \<Rightarrow> error + forecast" where
  "compute P csv_read args =
     (case csv_read of
        Inl e \<Rightarrow> Inl (Fail (''Cannot read CSV '' @ csv_path args @ '': '' @ e))
      | Inr df \<Rightarrow>
     (case map_of df ''Time'' of
        None \<Rightarrow> Inl (Fail ''CSV must have a 'Time' column.'')
      | Some time_col \<Rightarrow>
     (case map_of df (metric_name args) of
        None \<Rightarrow> Inl (Fail (''CSV does not contain metric column '' @ [CHR 0x27] @ metric_name args
                           @ [CHR 0x27] @ ''.''))
      | Some metric_col \<Rightarrow>
          (let df' = clean (zip (to_datetime_coerce P time_col) (cells metric_col))
           in if metric_name args = ''Time'' then Inl (KeyError ''Time'')
              else
                (let s = numeric_dropna P df'
                 in if s = [] then Inl (Fail ''No numeric data points found after cleaning.'')
                    else
                      (case to_offset P (interval args) of
                         None \<Rightarrow> Inl (Fail (''Invalid interval '' @ [CHR 0x27] @ interval args
                                            @ [CHR 0x27]))
                       | Some step \<Rightarrow>
                           if step \<le> 0
                           then Inl (Fail (''Invalid interval '' @ [CHR 0x27] @ interval args
                                           @ [CHR 0x27]))
                           else
                             (let s' = resample_last_ffill step s
                              in if length s' < 3
                                 then Inl (Fail ''Not enough points after resampling (need >= 3).'')
                                 else
                                   (case values_of s' of
                                      None \<Rightarrow> Inl (ValueError ''Input y contains NaN.'')
                                    | Some y \<Rightarrow> Inr (forecast_of P args step s' y)))))))))"

text \<open>
  \<open>main\<close>: the files written and how the run ends. The forecast CSV (line 77) is the only
  file the script writes, and it is written once everything before it went through.
\<close>

definition main_trend ::
    "pandas \<Rightarrow> string + dataframe \<Rightarrow> trend_args \<Rightarrow> string list \<times> (error + forecast)" where
  "main_trend P csv_read args =
     (case compute P csv_read args of
        Inl e \<Rightarrow> ([], Inl e)
      | Inr result \<Rightarrow> ([out_forecast args], Inr result))"


section \<open>The plotting scripts\<close>






subsection \<open>main of plot_base_pcp_metric.py\<close>







subsection \<open>main of plot_split_by_observed_predicted.py\<close>

text \<open>
  \<open>df[label_col].astype(str).str.lower() == str(predicted_label).lower()\<close> gives one
  truth value per row; \<open>df.loc[is_pred, ...]\<close> and \<open>df.loc[~is_pred, ...]\<close> select the
  rows where it is true and where it is false.
\<close>

definition astype_str :: "pandas \<Rightarrow> column \<Rightarrow> string list" where
  "astype_str P col =
     (case col of
        NumericCol xs \<Rightarrow> map (\<lambda>x. case x of None \<Rightarrow> ''nan'' | Some r \<Rightarrow> num_to_str P r) xs
      | ObjectCol xs \<Rightarrow> map (\<lambda>x. case x of None \<Rightarrow> ''nan'' | Some s \<Rightarrow> s) xs
      | DatetimeCol xs \<Rightarrow> map (\<lambda>x. case x of None \<Rightarrow> ''NaT'' | Some t \<Rightarrow> ts_to_str P t) xs)"

definition is_pred :: "pandas \<Rightarrow> column \<Rightarrow> string \<Rightarrow> bool list" where
  "is_pred P label predicted_label =
     map (\<lambda>s. lower s = lower predicted_label) (astype_str P label)"

definition loc_mask :: "bool list \<Rightarrow> 'a list \<Rightarrow> 'a list" where
  "loc_mask sel xs = map snd (filter fst (zip sel xs))"

definition loc_col :: "bool list \<Rightarrow> column \<Rightarrow> column" where
  "loc_col sel col =
     (case col of
        NumericCol xs \<Rightarrow> NumericCol (loc_mask sel xs)
      | ObjectCol xs \<Rightarrow> ObjectCol (loc_mask sel xs)
      | DatetimeCol xs \<Rightarrow> DatetimeCol (loc_mask sel xs))"



record split_args =
  split_csv :: string
  split_time_col :: "string option"
  value_col :: "string option"
  label_col :: string
  predicted_label :: string
  out_path :: string
  split_pdf :: "string option"
  split_resample :: "string option"
  resample_agg_name :: string
  split_rolling :: "int option"




section \<open>An instance of the library parameters\<close>

text \<open>
  For evaluating the model on concrete inputs: numbers and timestamps convert to
  timestamps as they are and text never parses, the only interval is \<open>1min\<close>, hours
  convert to nanoseconds by rounding down, resampling is not available and the index of
  two aligned series is the index of the first, and the stem of a file name is what
  precedes its first dot.
\<close>

definition simple_pandas :: pandas where
  "simple_pandas =
     \<lparr> to_datetime_coerce = (\<lambda>col. map (\<lambda>c. case c of NumCell r \<Rightarrow> Some \<lfloor>r\<rfloor> | TsCell t \<Rightarrow> Some t | _ \<Rightarrow> None) (cells col)),
       str_to_numeric = (\<lambda>s. None),
       to_offset = (\<lambda>s. if s = ''1min'' then Some 60000000000 else None),
       to_timedelta_hours = (\<lambda>x. \<lfloor>x * 3600000000000\<rfloor>),
       to_datetime = (\<lambda>col. None),
       resample_agg = (\<lambda>agg rule s. None),
       rolling_mean = (\<lambda>k s. s),
       concat_index = (\<lambda>a b. Some (fst a)),
       num_to_str = (\<lambda>r. ''0''),
       ts_to_str = (\<lambda>t. ''0''),
       path_stem = takeWhile (\<lambda>c. c \<noteq> CHR ''.'') \<rparr>"

section \<open>Properties of the column resolvers\<close>

lemma lower_map_lookup:
  "lower_map cols k =
     (case filter (\<lambda>c. lower c = k) cols of [] \<Rightarrow> None | x # xs \<Rightarrow> Some (last (x # xs)))"
proof (induction cols rule: rev_induct)
  case Nil
  show ?case by (simp add: lower_map_def)
next
  case (snoc c cols)
  then show ?case
    by (auto simp: lower_map_def split: list.splits)
qed

lemma first_candidate_least:
  assumes "k < length cands" "m (cands ! k) = Some c" "\<forall>j<k. m (cands ! j) = None"
  shows "first_candidate m cands = Some c"
  using assms
proof (induction cands arbitrary: k)
  case Nil
  then show ?case by simp
next
  case (Cons a cands)
  show ?case
  proof (cases k)
    case 0
    with Cons.prems show ?thesis by simp
  next
    case (Suc k')
    with Cons.prems have "m a = None" by auto
    moreover have "first_candidate m cands = Some c"
      using Cons.prems Suc by (intro Cons.IH[of k']) auto
    ultimately show ?thesis by simp
  qed
qed

lemma first_candidate_none:
  "(\<forall>cand\<in>set cands. m cand = None) \<Longrightarrow> first_candidate m cands = None"
  by (induction cands) auto

lemma detect_time_col_not_forced:
  "\<not> forced_valid df forced \<Longrightarrow> detect_time_col df forced = detect_time_auto df"
  by (auto simp: forced_valid_def detect_time_col_def split: option.splits)

lemma detect_time_auto_match:
  assumes k: "k < length time_candidates"
    and hit: "filter (\<lambda>c. lower c = time_candidates ! k) (columns df) \<noteq> []"
    and least: "\<forall>j<k. \<forall>c\<in>set (columns df). lower c \<noteq> time_candidates ! j"
  shows "detect_time_auto df =
           Inr (last (filter (\<lambda>c. lower c = time_candidates ! k) (columns df)))"
proof -
  let ?m = "lower_map (columns df)"
  have "?m (time_candidates ! k) =
          Some (last (filter (\<lambda>c. lower c = time_candidates ! k) (columns df)))"
    using hit by (simp add: lower_map_lookup split: list.splits)
  moreover have "\<forall>j<k. ?m (time_candidates ! j) = None"
  proof (intro allI impI)
    fix j assume "j < k"
    with least have "filter (\<lambda>c. lower c = time_candidates ! j) (columns df) = []"
      by (auto simp: filter_empty_conv)
    then show "?m (time_candidates ! j) = None"
      by (simp add: lower_map_lookup)
  qed
  ultimately have "first_candidate ?m time_candidates =
          Some (last (filter (\<lambda>c. lower c = time_candidates ! k) (columns df)))"
    using k by (intro first_candidate_least[of k]) auto
  then show ?thesis by (simp add: detect_time_auto_def)
qed

lemma detect_time_auto_fallback:
  assumes none: "\<forall>c\<in>set (columns df). lower c \<notin> set time_candidates"
    and cols: "columns df = c0 # cs"
  shows "detect_time_auto df = Inr c0"
proof -
  have "\<forall>cand\<in>set time_candidates. lower_map (columns df) cand = None"
  proof
    fix cand assume "cand \<in> set time_candidates"
    with none have "filter (\<lambda>c. lower c = cand) (columns df) = []"
      by (auto simp: filter_empty_conv)
    then show "lower_map (columns df) cand = None"
      by (simp add: lower_map_lookup)
  qed
  then have "first_candidate (lower_map (columns df)) time_candidates = None"
    by (rule first_candidate_none)
  with cols show ?thesis by (simp add: detect_time_auto_def)
qed

text \<open>
  C7. Time column resolution (\<open>detect_time_col\<close> of both plotting scripts). A forced name
  that names a column is returned. Otherwise the candidates time, timestamp, date, datetime
  are tried in this order against the lowercased column names, and the column returned is
  the (last) one whose lowercase name is the first candidate that matches any column.
  Otherwise the first column is returned. In particular, with no forced name, a table that
  has a column named "time" in any letter case gets such a column as its time column.
\<close>

theorem detect_time_col_resolution:
  "(forced = Some f \<and> f \<noteq> [] \<and> f \<in> set (columns df) \<longrightarrow> detect_time_col df forced = Inr f)
   \<and> (\<not> forced_valid df forced \<and> k < length time_candidates
        \<and> filter (\<lambda>c. lower c = time_candidates ! k) (columns df) \<noteq> []
        \<and> (\<forall>j<k. \<forall>c\<in>set (columns df). lower c \<noteq> time_candidates ! j)
      \<longrightarrow> detect_time_col df forced =
            Inr (last (filter (\<lambda>c. lower c = time_candidates ! k) (columns df))))
   \<and> (\<not> forced_valid df forced \<and> (\<forall>c\<in>set (columns df). lower c \<notin> set time_candidates)
        \<and> columns df = c0 # cs
      \<longrightarrow> detect_time_col df forced = Inr c0)
   \<and> (forced = None \<and> (\<exists>c\<in>set (columns df). lower c = ''time'')
      \<longrightarrow> (\<exists>c\<in>set (columns df). lower c = ''time'' \<and> detect_time_col df forced = Inr c))"
proof (intro conjI impI)
  assume "forced = Some f \<and> f \<noteq> [] \<and> f \<in> set (columns df)"
  then show "detect_time_col df forced = Inr f"
    by (simp add: detect_time_col_def)
next
  assume h: "\<not> forced_valid df forced \<and> k < length time_candidates
        \<and> filter (\<lambda>c. lower c = time_candidates ! k) (columns df) \<noteq> []
        \<and> (\<forall>j<k. \<forall>c\<in>set (columns df). lower c \<noteq> time_candidates ! j)"
  then show "detect_time_col df forced =
            Inr (last (filter (\<lambda>c. lower c = time_candidates ! k) (columns df)))"
    using detect_time_auto_match[of k df] by (simp add: detect_time_col_not_forced)
next
  assume "\<not> forced_valid df forced \<and> (\<forall>c\<in>set (columns df). lower c \<notin> set time_candidates)
        \<and> columns df = c0 # cs"
  then show "detect_time_col df forced = Inr c0"
    using detect_time_auto_fallback[of df c0 cs] by (simp add: detect_time_col_not_forced)
next
  assume h: "forced = None \<and> (\<exists>c\<in>set (columns df). lower c = ''time'')"
  let ?hits = "filter (\<lambda>c. lower c = ''time'') (columns df)"
  from h have ne: "?hits \<noteq> []" by (auto simp: filter_empty_conv)
  have "detect_time_auto df = Inr (last (filter (\<lambda>c. lower c = time_candidates ! 0) (columns df)))"
    using ne by (intro detect_time_auto_match) (simp_all add: time_candidates_def)
  then have res: "detect_time_col df forced = Inr (last ?hits)"
    using h by (simp add: detect_time_col_def time_candidates_def)
  from ne have "last ?hits \<in> set ?hits" by (rule last_in_set)
  then have "last ?hits \<in> set (columns df) \<and> lower (last ?hits) = ''time''" by simp
  with res show "\<exists>c\<in>set (columns df). lower c = ''time'' \<and> detect_time_col df forced = Inr c"
    by blast
qed

theorem detect_time_col_resolution_witness:
  "detect_time_col [(''host'', ObjectCol []), (''TIME'', ObjectCol []), (''v'', NumericCol [])]
       (Some ''v'') = Inr ''v''
   \<and> detect_time_col [(''Date'', ObjectCol []), (''TIME'', ObjectCol []), (''Time'', ObjectCol [])]
       (Some ''nope'') = Inr ''Time''
   \<and> detect_time_col [(''host'', ObjectCol []), (''v'', NumericCol [])] None = Inr ''host''
   \<and> (\<exists>c\<in>set (columns [(''tImE'', ObjectCol []), (''v'', NumericCol [])]). lower c = ''time''
        \<and> detect_time_col [(''tImE'', ObjectCol []), (''v'', NumericCol [])] None = Inr c)"
  using
    detect_time_col_resolution[of "Some ''v''" "''v''"
      "[(''host'', ObjectCol []), (''TIME'', ObjectCol []), (''v'', NumericCol [])]"]
    detect_time_col_resolution[of "Some ''nope''" _
      "[(''Date'', ObjectCol []), (''TIME'', ObjectCol []), (''Time'', ObjectCol [])]" 0]
    detect_time_col_resolution[of None _ "[(''host'', ObjectCol []), (''v'', NumericCol [])]"
      _ "''host''" "[''v'']"]
    detect_time_col_resolution[of None _ "[(''tImE'', ObjectCol []), (''v'', NumericCol [])]"]
  by (simp add: columns_def forced_valid_def time_candidates_def lower_def lower_char_def)

lemma find_least_index:
  assumes "i < length xs" "P (xs ! i)" "\<forall>j<i. \<not> P (xs ! j)"
  shows "find P xs = Some (xs ! i)"
  using assms by (simp add: find_Some_iff) blast

lemma filter_first_least_index:
  assumes "i < length xs" "P (xs ! i)" "\<forall>j<i. \<not> P (xs ! j)"
  shows "\<exists>rest. filter P xs = xs ! i # rest"
  using assms
proof (induction xs arbitrary: i)
  case Nil
  then show ?case by simp
next
  case (Cons a xs)
  show ?case
  proof (cases i)
    case 0
    with Cons.prems show ?thesis by simp
  next
    case (Suc i')
    with Cons.prems have "\<not> P a" by auto
    moreover have "\<exists>rest. filter P xs = xs ! i' # rest"
      using Cons.prems Suc by (intro Cons.IH) auto
    ultimately show ?thesis using Suc by simp
  qed
qed

lemma pick_metric_col_not_forced:
  "\<not> forced_valid df metric \<Longrightarrow> pick_metric_col df time_col metric = pick_metric_auto df time_col"
  by (auto simp: forced_valid_def pick_metric_col_def split: option.splits)

lemma detect_value_col_not_forced:
  "\<not> forced_valid df forced \<Longrightarrow> detect_value_col df time_col forced = detect_value_auto df time_col"
  by (auto simp: forced_valid_def detect_value_col_def split: option.splits)

lemma pick_metric_auto_first:
  assumes "i < length (columns df)"
    and "columns df ! i \<noteq> time_col \<and> col_is_numeric df (columns df ! i)"
    and "\<forall>j<i. \<not> (columns df ! j \<noteq> time_col \<and> col_is_numeric df (columns df ! j))"
    and "\<forall>p\<in>set preferred_metrics. \<not> (p \<in> set (columns df) \<and> p \<noteq> time_col \<and> col_is_numeric df p)"
  shows "pick_metric_auto df time_col = Inr (columns df ! i)"
proof -
  obtain rest where f: "numeric_cols df time_col = columns df ! i # rest"
    unfolding numeric_cols_def
    using filter_first_least_index[of i "columns df" "\<lambda>c. c \<noteq> time_col \<and> col_is_numeric df c"]
      assms(1-3) by blast
  have "\<forall>p\<in>set preferred_metrics. p \<notin> set (numeric_cols df time_col)"
    using assms(4) by (auto simp: numeric_cols_def)
  then have "find (\<lambda>p. p \<in> set (columns df ! i # rest)) preferred_metrics = None"
    by (simp add: find_None_iff f)
  then show ?thesis by (simp add: pick_metric_auto_def f)
qed

lemma pick_metric_auto_preferred:
  assumes "k < length preferred_metrics"
    and "preferred_metrics ! k \<in> set (numeric_cols df time_col)"
    and "\<forall>j<k. preferred_metrics ! j \<notin> set (numeric_cols df time_col)"
  shows "pick_metric_auto df time_col = Inr (preferred_metrics ! k)"
proof -
  from assms(2) obtain c cs where f: "numeric_cols df time_col = c # cs"
    by (cases "numeric_cols df time_col") auto
  have "find (\<lambda>p. p \<in> set (c # cs)) preferred_metrics = Some (preferred_metrics ! k)"
    using assms unfolding f by (intro find_least_index) auto
  then show ?thesis by (simp add: pick_metric_auto_def f)
qed

text \<open>
  C6 (as amended). Metric/value column resolution. Both resolvers return a forced name that
  names a column. Otherwise \<open>detect_value_col\<close> returns the first column, other than the
  time column, of numeric dtype; \<open>pick_metric_col\<close> does the same only when none of its
  preferred names (ds389.cn.opscompleted, ds389.cn.opsCompleted, opscompleted) is such a
  column, and otherwise returns the first preferred name that is one. Both end with
  SystemExit when no column other than the time column is numeric.
\<close>

theorem metric_col_resolution:
  "(forced = Some f \<and> f \<noteq> [] \<and> f \<in> set (columns df)
      \<longrightarrow> pick_metric_col df time_col forced = Inr f \<and> detect_value_col df time_col forced = Inr f)
   \<and> (\<not> forced_valid df forced \<and> i < length (columns df)
        \<and> columns df ! i \<noteq> time_col \<and> col_is_numeric df (columns df ! i)
        \<and> (\<forall>j<i. \<not> (columns df ! j \<noteq> time_col \<and> col_is_numeric df (columns df ! j)))
      \<longrightarrow> detect_value_col df time_col forced = Inr (columns df ! i)
          \<and> ((\<forall>p\<in>set preferred_metrics.
                 \<not> (p \<in> set (columns df) \<and> p \<noteq> time_col \<and> col_is_numeric df p))
              \<longrightarrow> pick_metric_col df time_col forced = Inr (columns df ! i)))
   \<and> (\<not> forced_valid df forced \<and> k < length preferred_metrics
        \<and> preferred_metrics ! k \<in> set (columns df) \<and> preferred_metrics ! k \<noteq> time_col
        \<and> col_is_numeric df (preferred_metrics ! k)
        \<and> (\<forall>j<k. \<not> (preferred_metrics ! j \<in> set (columns df) \<and> preferred_metrics ! j \<noteq> time_col
                    \<and> col_is_numeric df (preferred_metrics ! j)))
      \<longrightarrow> pick_metric_col df time_col forced = Inr (preferred_metrics ! k))
   \<and> (\<not> forced_valid df forced
        \<and> (\<forall>c\<in>set (columns df). \<not> (c \<noteq> time_col \<and> col_is_numeric df c))
      \<longrightarrow> (\<exists>msg. pick_metric_col df time_col forced = Inl (SystemExit msg))
          \<and> (\<exists>msg. detect_value_col df time_col forced = Inl (SystemExit msg)))"
proof (intro conjI impI)
  assume "forced = Some f \<and> f \<noteq> [] \<and> f \<in> set (columns df)"
  then show "pick_metric_col df time_col forced = Inr f"
    and "detect_value_col df time_col forced = Inr f"
    by (simp_all add: pick_metric_col_def detect_value_col_def)
next
  assume h: "\<not> forced_valid df forced \<and> i < length (columns df)
        \<and> columns df ! i \<noteq> time_col \<and> col_is_numeric df (columns df ! i)
        \<and> (\<forall>j<i. \<not> (columns df ! j \<noteq> time_col \<and> col_is_numeric df (columns df ! j)))"
  have "find (\<lambda>c. c \<noteq> time_col \<and> col_is_numeric df c) (columns df) = Some (columns df ! i)"
    using h by (intro find_least_index) auto
  then show "detect_value_col df time_col forced = Inr (columns df ! i)"
    using h by (simp add: detect_value_col_not_forced detect_value_auto_def)
  assume "\<forall>p\<in>set preferred_metrics.
            \<not> (p \<in> set (columns df) \<and> p \<noteq> time_col \<and> col_is_numeric df p)"
  then show "pick_metric_col df time_col forced = Inr (columns df ! i)"
    using h pick_metric_auto_first[of i df time_col] by (simp add: pick_metric_col_not_forced)
next
  assume h: "\<not> forced_valid df forced \<and> k < length preferred_metrics
        \<and> preferred_metrics ! k \<in> set (columns df) \<and> preferred_metrics ! k \<noteq> time_col
        \<and> col_is_numeric df (preferred_metrics ! k)
        \<and> (\<forall>j<k. \<not> (preferred_metrics ! j \<in> set (columns df) \<and> preferred_metrics ! j \<noteq> time_col
                    \<and> col_is_numeric df (preferred_metrics ! j)))"
  then have "pick_metric_auto df time_col = Inr (preferred_metrics ! k)"
    by (intro pick_metric_auto_preferred) (auto simp: numeric_cols_def)
  with h show "pick_metric_col df time_col forced = Inr (preferred_metrics ! k)"
    by (simp add: pick_metric_col_not_forced)
next
  assume h: "\<not> forced_valid df forced
        \<and> (\<forall>c\<in>set (columns df). \<not> (c \<noteq> time_col \<and> col_is_numeric df c))"
  then have "numeric_cols df time_col = []"
    by (auto simp: numeric_cols_def filter_empty_conv)
  with h show "\<exists>msg. pick_metric_col df time_col forced = Inl (SystemExit msg)"
    by (simp add: pick_metric_col_not_forced pick_metric_auto_def)
  from h have "find (\<lambda>c. c \<noteq> time_col \<and> col_is_numeric df c) (columns df) = None"
    by (auto simp: find_None_iff)
  with h show "\<exists>msg. detect_value_col df time_col forced = Inl (SystemExit msg)"
    by (simp add: detect_value_col_not_forced detect_value_auto_def)
qed

theorem metric_col_resolution_witness:
  "pick_metric_col [(''Time'', ObjectCol []), (''a'', NumericCol [])] ''Time'' (Some ''a'') = Inr ''a''
   \<and> detect_value_col [(''Time'', ObjectCol []), (''a'', NumericCol [])] ''Time'' (Some ''a'') = Inr ''a''
   \<and> detect_value_col [(''Time'', ObjectCol []), (''h'', ObjectCol []), (''a'', NumericCol [])]
        ''Time'' (Some ''nope'') = Inr ''a''
   \<and> pick_metric_col [(''Time'', ObjectCol []), (''h'', ObjectCol []), (''a'', NumericCol [])]
        ''Time'' (Some ''nope'') = Inr ''a''
   \<and> pick_metric_col [(''Time'', ObjectCol []), (''a'', NumericCol []), (''opscompleted'', NumericCol [])]
        ''Time'' None = Inr ''opscompleted''
   \<and> (\<exists>msg. pick_metric_col [(''Time'', NumericCol []), (''h'', ObjectCol [])] ''Time'' None
              = Inl (SystemExit msg))
   \<and> (\<exists>msg. detect_value_col [(''Time'', NumericCol []), (''h'', ObjectCol [])] ''Time'' None
              = Inl (SystemExit msg))"
  using
    metric_col_resolution[where forced = "Some ''a''" and f = "''a''" and time_col = "''Time''"
      and df = "[(''Time'', ObjectCol []), (''a'', NumericCol [])]"]
    metric_col_resolution[where forced = "Some ''nope''" and time_col = "''Time''" and i = 2
      and df = "[(''Time'', ObjectCol []), (''h'', ObjectCol []), (''a'', NumericCol [])]"]
    metric_col_resolution[where forced = None and time_col = "''Time''" and k = 2
      and df = "[(''Time'', ObjectCol []), (''a'', NumericCol []), (''opscompleted'', NumericCol [])]"]
    metric_col_resolution[where forced = None and time_col = "''Time''"
      and df = "[(''Time'', NumericCol []), (''h'', ObjectCol [])]"]
  by (simp add: columns_def forced_valid_def preferred_metrics_def col_is_numeric_def
        is_numeric_dtype_def nth_Cons' less_Suc_eq all_conj_distrib)

theorem pick_metric_col_prefers_known_name:
  "pick_metric_col
      [(''Time'', ObjectCol [Some ''00:00'']), (''a'', NumericCol [Some 1]),
       (''opscompleted'', NumericCol [Some 2])] ''Time'' None = Inr ''opscompleted''
   \<and> detect_value_col
      [(''Time'', ObjectCol [Some ''00:00'']), (''a'', NumericCol [Some 1]),
       (''opscompleted'', NumericCol [Some 2])] ''Time'' None = Inr ''a''
   \<and> columns
      [(''Time'', ObjectCol [Some ''00:00'']), (''a'', NumericCol [Some 1]),
       (''opscompleted'', NumericCol [Some 2])] = [''Time'', ''a'', ''opscompleted'']
   \<and> col_is_numeric
      [(''Time'', ObjectCol [Some ''00:00'']), (''a'', NumericCol [Some 1]),
       (''opscompleted'', NumericCol [Some 2])] ''a''
   \<and> \<not> col_is_numeric
      [(''Time'', ObjectCol [Some ''00:00'']), (''a'', NumericCol [Some 1]),
       (''opscompleted'', NumericCol [Some 2])] ''Time''"
  by (simp add: pick_metric_col_def pick_metric_auto_def detect_value_col_def detect_value_auto_def
        numeric_cols_def columns_def col_is_numeric_def is_numeric_dtype_def preferred_metrics_def)

section \<open>Properties of the forecast length\<close>





section \<open>Properties of the threshold ETA\<close>



section \<open>Properties of the label split\<close>

lemma loc_mask_nths:
  "loc_mask sel xs = nths xs {i. i < length sel \<and> sel ! i}"
proof (induction xs arbitrary: sel)
  case Nil
  show ?case by (simp add: loc_mask_def)
next
  case (Cons x xs)
  show ?case
  proof (cases sel)
    case Nil
    then show ?thesis by (simp add: loc_mask_def)
  next
    case (Cons b bs)
    have "loc_mask bs xs = nths xs {i. i < length bs \<and> bs ! i}"
      by (rule Cons.IH)
    then show ?thesis
      using Cons by (simp add: loc_mask_def nths_Cons)
  qed
qed

lemma loc_mask_partition:
  "length sel = length xs \<Longrightarrow>
     mset (loc_mask sel xs) + mset (loc_mask (map Not sel) xs) = mset xs"
  by (induction sel xs rule: list_induct2) (simp_all add: loc_mask_def)

lemma length_astype_str: "length (astype_str P col) = length (cells col)"
  by (simp add: astype_str_def cells_def split: column.splits)

lemma cells_loc_col: "cells (loc_col sel col) = loc_mask sel (cells col)"
  by (cases col) (simp_all add: loc_col_def cells_def loc_mask_def zip_map2 filter_map comp_def
        case_prod_unfold)

text \<open>
  C9. The label split of the observed-vs-predicted plotting script. The rows treated as
  predicted are exactly those whose label, as a string and lowercased, equals the
  lowercased \<open>--predicted-label\<close>; all other rows, whatever their label, are treated as
  observed; together the two parts hold every row of the table once.
\<close>

theorem label_split_partition:
  assumes "length (cells col) = length (cells label)"
  shows "cells (loc_col (is_pred P label pl) col) =
           nths (cells col) {i. i < length (cells col) \<and> lower (astype_str P label ! i) = lower pl}
       \<and> cells (loc_col (map Not (is_pred P label pl)) col) =
           nths (cells col) {i. i < length (cells col) \<and> lower (astype_str P label ! i) \<noteq> lower pl}
       \<and> mset (cells (loc_col (is_pred P label pl) col))
           + mset (cells (loc_col (map Not (is_pred P label pl)) col)) = mset (cells col)"
proof -
  let ?sel = "is_pred P label pl"
  have len: "length ?sel = length (cells col)"
    using assms by (simp add: is_pred_def length_astype_str)
  have a: "{i. i < length ?sel \<and> ?sel ! i}
             = {i. i < length (cells col) \<and> lower (astype_str P label ! i) = lower pl}"
    using len by (auto simp: is_pred_def)
  have b: "{i. i < length (map Not ?sel) \<and> map Not ?sel ! i}
             = {i. i < length (cells col) \<and> lower (astype_str P label ! i) \<noteq> lower pl}"
    using len by (auto simp: is_pred_def)
  show ?thesis
    using a b loc_mask_partition[OF len]
    by (simp add: cells_loc_col loc_mask_nths del: length_map)
qed

theorem label_split_partition_witness:
  "cells (loc_col (is_pred simple_pandas (ObjectCol [Some ''observed'', Some ''Predicted'', None, Some ''other'', Some ''PREDICTED'']) ''predicted'')
        (NumericCol [Some 1, Some 2, Some 3, Some 4, Some 5])) = [NumCell 2, NumCell 5]
   \<and> cells (loc_col (map Not (is_pred simple_pandas (ObjectCol [Some ''observed'', Some ''Predicted'', None, Some ''other'', Some ''PREDICTED'']) ''predicted''))
        (NumericCol [Some 1, Some 2, Some 3, Some 4, Some 5])) = [NumCell 1, NumCell 3, NumCell 4]"
  using label_split_partition[of "NumericCol [Some 1, Some 2, Some 3, Some 4, Some 5]"
      "ObjectCol [Some ''observed'', Some ''Predicted'', None, Some ''other'', Some ''PREDICTED'']"
      simple_pandas "''predicted''"]
  by (simp add: cells_def astype_str_def lower_def lower_char_def nths_Cons nth_Cons' Collect_conj_eq
         Collect_disj_eq)

section \<open>Properties of the cleaning step\<close>













section \<open>Properties of resampling\<close>

lemma filter_single:
  assumes "i < length xs" and "\<forall>j<length xs. P (xs ! j) \<longleftrightarrow> j = i"
  shows "filter P xs = [xs ! i]"
proof -
  have xs: "xs = take i xs @ xs ! i # drop (Suc i) xs"
    using assms(1) by (rule id_take_nth_drop)
  have a: "filter P (take i xs) = []"
    using assms by (auto simp: filter_empty_conv in_set_conv_nth)
  have b: "filter P (drop (Suc i) xs) = []"
    using assms by (auto simp: filter_empty_conv in_set_conv_nth)
  have c: "P (xs ! i)" using assms by simp
  have "filter P xs = filter P (take i xs @ xs ! i # drop (Suc i) xs)"
    using xs by simp
  also have "\<dots> = [xs ! i]" using a b c by simp
  finally show ?thesis .
qed

lemma grid_bin_unique:
  fixes step r :: int and i j :: nat
  assumes "0 < step" "0 \<le> r" "r < step"
  shows "(f + int i * step \<le> f + r + int j * step \<and> f + r + int j * step < f + int i * step + step)
           \<longleftrightarrow> j = i"
proof
  assume h: "f + int i * step \<le> f + r + int j * step \<and> f + r + int j * step < f + int i * step + step"
  show "j = i"
  proof (rule ccontr)
    assume "j \<noteq> i"
    then consider "j < i" | "i < j" by linarith
    then show False
    proof cases
      case 1
      then have "int j + 1 \<le> int i" by simp
      then have "(int j + 1) * step \<le> int i * step"
        using assms(1) by (simp add: mult_right_mono)
      with h assms show False by (simp add: algebra_simps)
    next
      case 2
      then have "int i + 1 \<le> int j" by simp
      then have "(int i + 1) * step \<le> int j * step"
        using assms(1) by (simp add: mult_right_mono)
      with h assms show False by (simp add: algebra_simps)
    qed
  qed
next
  assume "j = i"
  with assms show "f + int i * step \<le> f + r + int j * step \<and> f + r + int j * step < f + int i * step + step"
    by simp
qed

lemma last_valid_single: "last_valid [v] = v"
  by (cases v) (simp_all add: last_valid_def)

lemma bin_floor_split:
  "bin_floor origin step t + (t - origin) mod step = t"
  by (simp add: bin_floor_def)

lemma bin_floor_shift:
  "bin_floor origin step (t + int k * step) = bin_floor origin step t + int k * step"
proof -
  have "(t + int k * step - origin) mod step = (t - origin + int k * step) mod step"
    by (simp add: algebra_simps)
  also have "\<dots> = (t - origin) mod step" by simp
  finally show ?thesis by (simp add: bin_floor_def)
qed

lemma resample_last_equally_spaced:
  assumes step: "0 < step" and ne: "s \<noteq> []"
    and grid: "map fst s = map (\<lambda>i. a + int i * step) [0..<length s]"
  shows "resample_last step s =
           map (\<lambda>i. (bin_floor (normalize_ts a) step a + int i * step, snd (s ! i))) [0..<length s]"
proof -
  let ?n = "length s"
  let ?first = "bin_floor (normalize_ts a) step a"
  let ?r = "(a - normalize_ts a) mod step"
  from ne obtain p ps where s: "s = p # ps" by (cases s) auto
  have n: "0 < ?n" using ne by simp
  have nth_fst: "fst (s ! j) = a + int j * step" if "j < ?n" for j
  proof -
    have "fst (s ! j) = map fst s ! j" using that by simp
    also have "\<dots> = a + int j * step" using that by (simp add: grid)
    finally show ?thesis .
  qed
  have hd: "fst p = a" using nth_fst[of 0] n s by simp
  have "fst (last s) = fst (s ! (?n - 1))" using ne by (simp add: last_conv_nth)
  also have "\<dots> = a + int (?n - 1) * step" using n by (intro nth_fst) simp
  finally have lst: "fst (last (p # ps)) = a + int (?n - 1) * step" using s by simp
  have r: "0 \<le> ?r" "?r < step" using step by simp_all
  have a_split: "a = ?first + ?r" by (simp add: bin_floor_def)
  have cnt: "nat ((bin_floor (normalize_ts a) step (a + int (?n - 1) * step) - ?first) div step) + 1 = ?n"
    using step n by (simp add: bin_floor_shift)
  have bins: "last_valid (bin_values (?first + int i * step) step s) = snd (s ! i)" if "i < ?n" for i
  proof -
    have "filter (\<lambda>(t, v). ?first + int i * step \<le> t \<and> t < ?first + int i * step + step) s = [s ! i]"
    proof (rule filter_single[OF that], intro allI impI)
      fix j assume j: "j < ?n"
      have "fst (s ! j) = ?first + ?r + int j * step"
        using nth_fst[OF j] a_split by simp
      then show "(case s ! j of (t, v) \<Rightarrow> ?first + int i * step \<le> t \<and> t < ?first + int i * step + step)
                   \<longleftrightarrow> j = i"
        using grid_bin_unique[OF step r, of ?first i j] by (simp add: case_prod_unfold)
    qed
    then show ?thesis by (simp add: bin_values_def last_valid_single)
  qed
  have "resample_last step s =
          map (\<lambda>i. (?first + int i * step, last_valid (bin_values (?first + int i * step) step s)))
            [0..<?n]"
    unfolding resample_last_def s list.case Let_def hd lst
    using cnt s by simp
  also have "\<dots> = map (\<lambda>i. (?first + int i * step, snd (s ! i))) [0..<?n]"
    by (rule map_cong) (simp_all add: bins)
  finally show ?thesis .
qed

lemma resample_last_grid:
  assumes "s \<noteq> []"
  shows "resample_last step s \<noteq> []
         \<and> map fst (resample_last step s) =
             map (\<lambda>i. bin_floor (normalize_ts (fst (hd s))) step (fst (hd s)) + int i * step)
               [0..<length (resample_last step s)]"
proof -
  from assms obtain p ps where s: "s = p # ps" by (cases s) auto
  show ?thesis
    unfolding s resample_last_def list.case Let_def
    by (simp add: comp_def del: upt_Suc)
qed

lemma map_fst_ffill_from: "map fst (ffill_from prev s) = map fst s"
  by (induction s arbitrary: prev) (auto split: option.splits)

lemma ffill_from_idem: "ffill_from prev (ffill_from prev s) = ffill_from prev s"
proof (induction s arbitrary: prev)
  case Nil
  show ?case by simp
next
  case (Cons p s)
  obtain t v where p: "p = (t, v)" by (cases p)
  show ?case
  proof (cases v)
    case None
    then show ?thesis using Cons p by (cases prev) simp_all
  next
    case (Some x)
    then show ?thesis using Cons p by simp
  qed
qed

lemma normalize_bin_floor:
  assumes "0 < step"
  shows "normalize_ts (bin_floor (normalize_ts a) step a) = normalize_ts a"
    and "bin_floor (normalize_ts a) step (bin_floor (normalize_ts a) step a) = bin_floor (normalize_ts a) step a"
proof -
  let ?o = "normalize_ts a"
  let ?f = "bin_floor ?o step a"
  have o: "?o = day_ns * (a div day_ns)"
    by (simp add: normalize_ts_def minus_mod_eq_mult_div)
  have day: "0 < day_ns" by (simp add: day_ns_def)
  have le_a: "?o \<le> a" using day by (simp add: normalize_ts_def)
  have a_lt: "a < ?o + day_ns" using day by (simp add: normalize_ts_def)
  have "(a - ?o) mod step \<le> a - ?o"
    using le_a assms by (intro zmod_le_nonneg_dividend) simp
  then have lo: "?o \<le> ?f" by (simp add: bin_floor_def)
  have hi: "?f \<le> a" using assms by (simp add: bin_floor_def)
  have "?f div day_ns = a div day_ns"
  proof -
    have "?f = (?f - ?o) + (a div day_ns) * day_ns" using o by simp
    moreover have "0 \<le> ?f - ?o" "?f - ?o < day_ns" using lo hi a_lt by simp_all
    ultimately have "?f div day_ns = (?f - ?o) div day_ns + a div day_ns"
      by (metis div_mult_self1 day less_irrefl mult.commute add.commute)
    moreover have "(?f - ?o) div day_ns = 0"
      using \<open>0 \<le> ?f - ?o\<close> \<open>?f - ?o < day_ns\<close> by (simp add: div_pos_pos_trivial)
    ultimately show ?thesis by simp
  qed
  then show "normalize_ts ?f = ?o"
    by (simp add: normalize_ts_def minus_mod_eq_mult_div)
  have "(?f - ?o) mod step = 0"
  proof -
    have "?f - ?o = (a - ?o) - (a - ?o) mod step" by (simp add: bin_floor_def)
    also have "\<dots> = step * ((a - ?o) div step)" by (simp add: minus_mod_eq_mult_div)
    finally show ?thesis by simp
  qed
  then show "bin_floor ?o step ?f = ?f" by (simp add: bin_floor_def)
qed

text \<open>
  C4. Resampling with last-value aggregation followed by forward-fill is idempotent: at a
  positive step, applying it to a series that it produced gives the same series, with the
  same timestamps and the same values.
\<close>

theorem resample_last_ffill_idempotent:
  assumes "0 < step"
  shows "resample_last_ffill step (resample_last_ffill step s) = resample_last_ffill step s"
proof (cases "s = []")
  case True
  then show ?thesis by (simp add: resample_last_ffill_def resample_last_def ffill_def)
next
  case False
  let ?a = "fst (hd s)"
  let ?f = "bin_floor (normalize_ts ?a) step ?a"
  let ?r = "resample_last_ffill step s"
  have len: "length ?r = length (resample_last step s)"
    using arg_cong[OF map_fst_ffill_from[of None "resample_last step s"], of length]
    by (simp add: resample_last_ffill_def ffill_def)
  have ne: "?r \<noteq> []"
    using resample_last_grid[OF False, of step] len by auto
  have grid: "map fst ?r = map (\<lambda>i. ?f + int i * step) [0..<length ?r]"
    using resample_last_grid[OF False, of step] len
    by (simp add: resample_last_ffill_def ffill_def map_fst_ffill_from)
  have "resample_last step ?r =
          map (\<lambda>i. (bin_floor (normalize_ts ?f) step ?f + int i * step, snd (?r ! i))) [0..<length ?r]"
    using assms ne grid by (rule resample_last_equally_spaced)
  also have "\<dots> = map (\<lambda>i. (?f + int i * step, snd (?r ! i))) [0..<length ?r]"
    using normalize_bin_floor[OF assms, of ?a] by simp
  also have "\<dots> = ?r"
  proof (rule nth_equalityI)
    show "length (map (\<lambda>i. (?f + int i * step, snd (?r ! i))) [0..<length ?r]) = length ?r" by simp
  next
    fix i assume "i < length (map (\<lambda>i. (?f + int i * step, snd (?r ! i))) [0..<length ?r])"
    then have i: "i < length ?r" by simp
    have "fst (?r ! i) = map fst ?r ! i" using i by simp
    also have "\<dots> = ?f + int i * step" using i by (simp add: grid)
    finally show "map (\<lambda>i. (?f + int i * step, snd (?r ! i))) [0..<length ?r] ! i = ?r ! i"
      using i by (simp add: prod_eq_iff)
  qed
  finally have "resample_last step ?r = ?r" .
  then have "resample_last_ffill step ?r = ffill ?r"
    by (simp add: resample_last_ffill_def)
  also have "\<dots> = ?r"
    by (simp add: resample_last_ffill_def ffill_def ffill_from_idem)
  finally show ?thesis .
qed

theorem resample_last_ffill_idempotent_witness:
  "(0::int) < 10
   \<and> resample_last_ffill 10 [(1005, Some 1), (1012, Some 2), (1017, Some 3), (1041, Some 4)]
       = [(1000, Some 1), (1010, Some 3), (1020, Some 3), (1030, Some 3), (1040, Some 4)]
   \<and> resample_last_ffill 10
         [(1000, Some 1), (1010, Some 3), (1020, Some 3), (1030, Some 3), (1040, Some 4)]
       = [(1000, Some 1), (1010, Some 3), (1020, Some 3), (1030, Some 3), (1040, Some 4)]"
proof -
  have r: "resample_last_ffill 10 [(1005, Some 1), (1012, Some 2), (1017, Some 3), (1041, Some 4)]
       = [(1000, Some 1), (1010, Some 3), (1020, Some 3), (1030, Some 3), (1040, Some 4)]"
    by (simp add: resample_last_ffill_def resample_last_def ffill_def normalize_ts_def day_ns_def
          bin_floor_def bin_values_def last_valid_def Let_def upt_rec[of _ "numeral _"]
          upt_rec[of _ "Suc _"])
  have step: "(0::int) < 10" by simp
  show ?thesis
    using resample_last_ffill_idempotent[OF step,
        of "[(1005, Some 1), (1012, Some 2), (1017, Some 3), (1041, Some 4)]"]
    by (simp add: r)
qed

section \<open>The end-to-end example\<close>

lemma upt_10: "[0..<10] = [0, 1, 2, 3, 4, 5, 6, 7, 8, 9]"
  by code_simp

lemma ffill_from_all_some:
  "list_all (\<lambda>(t, v). v \<noteq> None) s \<Longrightarrow> ffill_from prev s = s"
  by (induction s arbitrary: prev) (auto split: option.splits)

lemma clean_minutes:
  "clean (zip (map (\<lambda>i. Some (t0 + int i * 60000000000)) [0..<10])
             (cells (NumericCol (map (\<lambda>i. Some (real i)) [0..<10]))))
     = map (\<lambda>i. (t0 + int i * 60000000000, NumCell (real i))) [0..<10]"
  by (simp add: upt_10 cells_def clean_def dropna_time_def List.map_filter_simps
        sort_values_time_def drop_duplicates_time_def)

lemma numeric_dropna_minutes:
  "numeric_dropna P (map (\<lambda>i. (t0 + int i * 60000000000, NumCell (real i))) [0..<10])
     = map (\<lambda>i. (t0 + int i * 60000000000, Some (real i))) [0..<10]"
  by (simp add: upt_10 numeric_dropna_def List.map_filter_simps to_numeric_cell_def)

lemma resample_minutes:
  "resample_last_ffill 60000000000
          (map (\<lambda>i. (t0 + int i * 60000000000, Some (real i))) [0..<10])
        = map (\<lambda>i. (bin_floor (normalize_ts t0) 60000000000 t0 + int i * 60000000000, Some (real i)))
            [0..<10]"
proof -
  let ?s = "map (\<lambda>i. (t0 + int i * 60000000000, Some (real i))) [0..<10]"
  let ?f = "bin_floor (normalize_ts t0) 60000000000 t0"
  have "resample_last 60000000000 ?s =
          map (\<lambda>i. (?f + int i * 60000000000, snd (?s ! i))) [0..<length ?s]"
    by (rule resample_last_equally_spaced) (simp_all add: comp_def)
  also have "\<dots> = map (\<lambda>i. (?f + int i * 60000000000, Some (real i))) [0..<10]"
    by (simp add: upt_10)
  finally have r: "resample_last 60000000000 ?s =
      map (\<lambda>i. (?f + int i * 60000000000, Some (real i))) [0..<10]" .
  have "ffill (map (\<lambda>i. (?f + int i * 60000000000, Some (real i))) [0..<10])
          = map (\<lambda>i. (?f + int i * 60000000000, Some (real i))) [0..<10]"
    unfolding ffill_def by (rule ffill_from_all_some) (simp add: list_all_iff)
  with r show ?thesis by (simp add: resample_last_ffill_def)
qed

lemma zip_map_map_same: "zip (map g xs) (map h (map g xs)) = map (\<lambda>k. (g k, h (g k))) xs"
  by (induction xs) auto

lemma forecast_of_minutes:
  assumes "horizon_hours args = 1"
  shows "out_slope (forecast_of P args 60000000000
            (map (\<lambda>i. (f + int i * 60000000000, Some (real i))) [0..<10]) (map real [0..<10])) = 60"
    and "out_intercept (forecast_of P args 60000000000
            (map (\<lambda>i. (f + int i * 60000000000, Some (real i))) [0..<10]) (map real [0..<10])) = 0"
    and "out_rows (forecast_of P args 60000000000
            (map (\<lambda>i. (f + int i * 60000000000, Some (real i))) [0..<10]) (map real [0..<10]))
          = map (\<lambda>i. (f + int i * 60000000000, real i, ''observed'')) [0..<10]
            @ map (\<lambda>i. (f + int i * 60000000000, real i, ''predicted'')) [10..<70]"
proof -
  define s where "s = map (\<lambda>i. (f + int i * 60000000000, Some (real i))) [0..<10]"
  define y where "y = map real [0..<10]"
  have fitted: "fit (map (\<lambda>(t, v). elapsed_hours f t) s) y = (60, 0)"
    unfolding s_def y_def
    by (simp add: upt_10 fit_def Let_def elapsed_hours_def total_seconds_def)
  have steps: "n_steps 1 (total_seconds 60000000000) = 60"
    by (simp add: n_steps_def total_seconds_def py_int_def)
  have lst: "fst (last s) = f + 540000000000" by (simp add: s_def upt_10)
  have hd: "fst (hd s) = f" by (simp add: s_def upt_10)
  have hist: "map (\<lambda>(t, v). (t, v, ''observed'')) (zip (map fst s) y)
                = map (\<lambda>i. (f + int i * 60000000000, real i, ''observed'')) [0..<10]"
    by (simp add: s_def y_def upt_10)
  have shift: "[10..<70] = map (\<lambda>k. k + 10) [0..<60]"
    by (simp add: map_add_upt del: upt_rec_numeral)
  have pred: "map (\<lambda>(t, v). (t, v, ''predicted''))
                (zip (date_range (f + 540000000000 + 60000000000) 60 60000000000)
                   (map (\<lambda>t. predict 60 0 (elapsed_hours f t))
                      (date_range (f + 540000000000 + 60000000000) 60 60000000000)))
              = map (\<lambda>i. (f + int i * 60000000000, real i, ''predicted'')) [10..<70]"
  proof -
    let ?g = "\<lambda>k. f + 540000000000 + 60000000000 + int k * 60000000000"
    have dr: "date_range (f + 540000000000 + 60000000000) 60 60000000000 = map ?g [0..<60]"
      by (simp add: date_range_def)
    show ?thesis
      unfolding dr zip_map_map_same shift
      by (simp add: predict_def elapsed_hours_def total_seconds_def comp_def
            del: upt_rec_numeral)
  qed
  show "out_slope (forecast_of P args 60000000000
            (map (\<lambda>i. (f + int i * 60000000000, Some (real i))) [0..<10]) (map real [0..<10])) = 60"
    and "out_intercept (forecast_of P args 60000000000
            (map (\<lambda>i. (f + int i * 60000000000, Some (real i))) [0..<10]) (map real [0..<10])) = 0"
    unfolding s_def[symmetric] y_def[symmetric] forecast_of_def Let_def hd fitted by simp_all
  show "out_rows (forecast_of P args 60000000000
            (map (\<lambda>i. (f + int i * 60000000000, Some (real i))) [0..<10]) (map real [0..<10]))
          = map (\<lambda>i. (f + int i * 60000000000, real i, ''observed'')) [0..<10]
            @ map (\<lambda>i. (f + int i * 60000000000, real i, ''predicted'')) [10..<70]"
    unfolding s_def[symmetric] y_def[symmetric] forecast_of_def Let_def fitted hd lst assms steps
      prod.case hist pred
    by simp
qed

lemma values_of_minutes:
  "values_of (map (\<lambda>i. (f + int i * 60000000000, Some (real i))) [0..<10]) = Some (map real [0..<10])"
  by (simp add: upt_10 values_of_def List.map_filter_simps)

text \<open>
  C8. End to end: a table whose ten \<open>Time\<close> cells parse to timestamps one minute apart
  and whose column \<open>ops\<close> holds 0 to 9, resampled at \<open>1min\<close> with a horizon of one hour.
  The run completes and writes the forecast CSV with 10 rows labelled observed (values 0 to
  9) followed by 60 rows labelled predicted (values 10 to 69), one per minute from the
  start of the first sample's minute; the slope is 60 per hour and the intercept 0.
\<close>

theorem end_to_end_example:
  assumes "to_datetime_coerce P time_col = map (\<lambda>i. Some (t0 + int i * 60000000000)) [0..<10]"
    and "interval args = ''1min''" and "to_offset P ''1min'' = Some 60000000000"
    and "metric_name args = ''ops''" and "horizon_hours args = 1"
  shows "\<exists>result.
           main_trend P
             (Inr [(''Time'', time_col), (''ops'', NumericCol (map (\<lambda>i. Some (real i)) [0..<10]))])
             args = ([out_forecast args], Inr result)
           \<and> out_rows result =
               map (\<lambda>i. (bin_floor (normalize_ts t0) 60000000000 t0 + int i * 60000000000, real i,
                          ''observed'')) [0..<10]
               @ map (\<lambda>i. (bin_floor (normalize_ts t0) 60000000000 t0 + int i * 60000000000, real i,
                            ''predicted'')) [10..<70]
           \<and> map (\<lambda>(t, v, label). label) (out_rows result) =
               replicate 10 ''observed'' @ replicate 60 ''predicted''
           \<and> out_slope result = 60 \<and> out_intercept result = 0"
proof -
  let ?f = "bin_floor (normalize_ts t0) 60000000000 t0"
  let ?s = "map (\<lambda>i. (?f + int i * 60000000000, Some (real i))) [0..<10]"
  let ?df = "[(''Time'', time_col), (''ops'', NumericCol (map (\<lambda>i. Some (real i)) [0..<10]))]"
  let ?result = "forecast_of P args 60000000000 ?s (map real [0..<10])"
  have len: "length ?s = 10" by simp
  have "compute P (Inr ?df) args = Inr ?result"
    unfolding compute_def
    by (simp add: assms clean_minutes numeric_dropna_minutes resample_minutes values_of_minutes
          Let_def del: upt_rec_numeral)
  then have m: "main_trend P (Inr ?df) args = ([out_forecast args], Inr ?result)"
    by (simp add: main_trend_def)
  have rows: "out_rows ?result =
               map (\<lambda>i. (?f + int i * 60000000000, real i, ''observed'')) [0..<10]
               @ map (\<lambda>i. (?f + int i * 60000000000, real i, ''predicted'')) [10..<70]"
    using assms(5) by (rule forecast_of_minutes(3))
  have labels: "map (\<lambda>(t, v, label). label) (out_rows ?result) =
               replicate 10 ''observed'' @ replicate 60 ''predicted''"
    unfolding rows by (simp add: comp_def map_replicate_const del: upt_rec_numeral)
  show ?thesis
    using m rows labels forecast_of_minutes(1,2)[OF assms(5), of P ?f] by blast
qed

theorem end_to_end_example_witness:
  "\<exists>result.
     main_trend simple_pandas
       (Inr [(''Time'', NumericCol (map (\<lambda>i. Some (7 + real i * 60000000000)) [0..<10])),
             (''ops'', NumericCol (map (\<lambda>i. Some (real i)) [0..<10]))])
       \<lparr> csv_path = ''in.csv'', metric_name = ''ops'', interval = ''1min'', horizon_hours = 1,
         threshold_arg = None, out_forecast = ''/tmp/forecast.csv'' \<rparr>
       = ([''/tmp/forecast.csv''], Inr result)
     \<and> map (\<lambda>(t, v, label). label) (out_rows result) =
         replicate 10 ''observed'' @ replicate 60 ''predicted''
     \<and> out_slope result = 60 \<and> out_intercept result = 0"
proof -
  let ?args = "\<lparr> csv_path = ''in.csv'', metric_name = ''ops'', interval = ''1min'',
                 horizon_hours = 1, threshold_arg = None, out_forecast = ''/tmp/forecast.csv'' \<rparr>"
  have h1: "to_datetime_coerce simple_pandas
              (NumericCol (map (\<lambda>i. Some (7 + real i * 60000000000)) [0..<10]))
            = map (\<lambda>i. Some (7 + int i * 60000000000)) [0..<10]"
    by (simp add: simple_pandas_def cells_def upt_10)
  have h2: "interval ?args = ''1min''" by simp
  have h3: "to_offset simple_pandas ''1min'' = Some 60000000000"
    by (simp add: simple_pandas_def)
  have h4: "metric_name ?args = ''ops''" by simp
  have h5: "horizon_hours ?args = 1" by simp
  show ?thesis
    using end_to_end_example[OF h1 h2 h3 h4 h5] by auto
qed

section \<open>Properties of the runs: a column name that is not in the table\<close>


















section \<open>Properties of the runs: a time column that does not parse\<close>







end
